theory Spec2Isabelle
  imports Main "HOL-Library.Monad_Syntax"
begin

section \<open>Strings\<close>

text \<open>
  A Go string is a sequence of bytes, here a \<^typ>\<open>string\<close>. The functions of the Go
  packages \<^verbatim>\<open>strings\<close> and \<^verbatim>\<open>strconv\<close> that \<^verbatim>\<open>protocols.go\<close> calls are
  modelled on ASCII text: white space is the six ASCII white-space bytes, and the case
  mappings change the 26 ASCII letters only. (On text beyond ASCII, Go also treats some Unicode
  code points as white space and maps the case of non-ASCII letters; the registry file is ASCII.)
\<close>

definition isSpace :: "char \<Rightarrow> bool" where
  "isSpace c = (c = CHR 0x09 \<or> c = CHR 0x0A \<or> c = CHR 0x0B \<or> c = CHR 0x0C
                \<or> c = CHR 0x0D \<or> c = CHR '' '')"

definition TrimSpace :: "string \<Rightarrow> string" where
  "TrimSpace s = rev (dropWhile isSpace (rev (dropWhile isSpace s)))"

definition lowerLetters :: string where
  "lowerLetters = ''abcdefghijklmnopqrstuvwxyz''"

definition upperLetters :: string where
  "upperLetters = ''ABCDEFGHIJKLMNOPQRSTUVWXYZ''"

definition upperByte :: "char \<Rightarrow> char" where
  "upperByte c = (case map_of (zip lowerLetters upperLetters) c of Some u \<Rightarrow> u | None \<Rightarrow> c)"

definition lowerByte :: "char \<Rightarrow> char" where
  "lowerByte c = (case map_of (zip upperLetters lowerLetters) c of Some l \<Rightarrow> l | None \<Rightarrow> c)"

definition ToUpper :: "string \<Rightarrow> string" where
  "ToUpper s = map upperByte s"

definition ToLower :: "string \<Rightarrow> string" where
  "ToLower s = map lowerByte s"

text \<open>
  \<^verbatim>\<open>strings.Fields\<close>: the maximal runs of bytes that are not white space, in order. The
  first argument is the field being read.
\<close>

fun fieldsFrom :: "string \<Rightarrow> string \<Rightarrow> string list" where
  "fieldsFrom cur [] = (if cur = [] then [] else [cur])"
| "fieldsFrom cur (c # cs) =
     (if isSpace c then (if cur = [] then fieldsFrom [] cs else cur # fieldsFrom [] cs)
      else fieldsFrom (cur @ [c]) cs)"

definition Fields :: "string \<Rightarrow> string list" where
  "Fields s = fieldsFrom [] s"

fun Join :: "string list \<Rightarrow> string \<Rightarrow> string" where
  "Join [] sep = []"
| "Join [x] sep = x"
| "Join (x # y # ys) sep = x @ sep @ Join (y # ys) sep"

definition isDigit :: "char \<Rightarrow> bool" where
  "isDigit c = (\<not> ((of_char c :: nat) < of_char (CHR ''0'') \<or> (of_char c :: nat) > of_char (CHR ''9'')))"

subsection \<open>Machine integers and \<^verbatim>\<open>strconv.Atoi\<close>\<close>

text \<open>
  Go's \<^verbatim>\<open>int\<close> is taken at 64 bits. Values are integers between \<open>minInt\<close> and
  \<open>maxInt\<close>; an increment wraps around, which \<open>wrapInt\<close> writes out.
\<close>

definition maxInt :: int where
  "maxInt = 2 ^ 63 - 1"

definition minInt :: int where
  "minInt = - (2 ^ 63)"

definition wrapInt :: "int \<Rightarrow> int" where
  "wrapInt x = (x + 2 ^ 63) mod 2 ^ 64 - 2 ^ 63"

text \<open>The loop \<^verbatim>\<open>n = n*10 + int(ch - '0')\<close> over the digits.\<close>

fun digitsValue :: "int \<Rightarrow> string \<Rightarrow> int" where
  "digitsValue n [] = n"
| "digitsValue n (ch # cs) = digitsValue (n * 10 + (int (of_char ch) - 48)) cs"

text \<open>
  \<^verbatim>\<open>strconv.Atoi\<close>: an optional sign, then one or more decimal digits and nothing else;
  a value that does not fit an \<^verbatim>\<open>int\<close> is an error. \<open>None\<close> is the error.
\<close>

definition Atoi :: "string \<Rightarrow> int option" where
  "Atoi s =
     (let neg = (s \<noteq> [] \<and> hd s = CHR ''-'');
          ds = (if s \<noteq> [] \<and> (hd s = CHR ''-'' \<or> hd s = CHR ''+'') then tl s else s)
      in if ds = [] \<or> \<not> list_all isDigit ds then None
         else let v = (if neg then - digitsValue 0 ds else digitsValue 0 ds)
              in if minInt \<le> v \<and> v \<le> maxInt then Some v else None)"

section \<open>Entries and the decimal field\<close>

record Entry =
  DecimalStart :: int
  DecimalEnd :: int
  Keyword :: string
  Protocol :: string
  IPv6ExtHdr :: string
  Reference :: string

datatype fieldError =
    EmptyDecimal
  | NonNumericDecimal
  | InvalidRange
  | RangeEndBeforeStart
  | InvalidDecimal

text \<open>
  \<^verbatim>\<open>parseDecimalField\<close>. \<^verbatim>\<open>strings.SplitN(s, "-", 2)\<close> on a string that contains
  a hyphen cuts it at the first hyphen, so the test \<^verbatim>\<open>len(parts) != 2\<close> never fires there.
\<close>

definition parseDecimalField :: "string \<Rightarrow> fieldError + (int \<times> int)" where
  "parseDecimalField s0 =
     (let s = TrimSpace s0
      in if s = [] then Inl EmptyDecimal
         else if \<not> isDigit (hd s) then Inl NonNumericDecimal
         else if CHR ''-'' \<in> set s then
           (let a = TrimSpace (takeWhile (\<lambda>c. c \<noteq> CHR ''-'') s);
                b = TrimSpace (tl (dropWhile (\<lambda>c. c \<noteq> CHR ''-'') s))
            in case (Atoi a, Atoi b) of
                 (Some start, Some endN) \<Rightarrow>
                   if endN < start then Inl RangeEndBeforeStart else Inr (start, endN)
               | _ \<Rightarrow> Inl InvalidRange)
         else (case Atoi s of None \<Rightarrow> Inl InvalidDecimal | Some n \<Rightarrow> Inr (n, n)))"

text \<open>\<^verbatim>\<open>normalizeProtoName\<close>.\<close>

definition normalizeProtoName :: "string \<Rightarrow> string" where
  "normalizeProtoName s = Join (Fields (ToLower (TrimSpace s))) '' ''"

section \<open>Parsing the records\<close>

text \<open>
  The entry list and the three indexes while \<^verbatim>\<open>loadFromReaderLocked\<close> fills them. An index
  holds pointers into the entry list; entries are never changed once appended, so an index is
  modelled as a map to the entry itself.
\<close>

record snapshot =
  sEntries :: "Entry list"
  sByNumber :: "int \<rightharpoonup> Entry"
  sByKeyword :: "string \<rightharpoonup> Entry"
  sByProtocolName :: "string \<rightharpoonup> Entry"

definition emptySnapshot :: snapshot where
  "emptySnapshot = \<lparr>sEntries = [], sByNumber = Map.empty, sByKeyword = Map.empty,
                     sByProtocolName = Map.empty\<rparr>"

text \<open>
  The loop \<^verbatim>\<open>for n := start; n <= end; n++ { byNumber[n] = entryPtr }\<close>. When \<open>endN\<close> is
  the largest \<^verbatim>\<open>int\<close>, the increment wraps and the loop does not end: the result is \<open>None\<close>.
\<close>

partial_function (option) fillByNumber ::
  "int \<Rightarrow> int \<Rightarrow> Entry \<Rightarrow> (int \<rightharpoonup> Entry) \<Rightarrow> (int \<rightharpoonup> Entry) option" where
  "fillByNumber n endN e m =
     (if n \<le> endN then fillByNumber (wrapInt (n + 1)) endN e (m(n \<mapsto> e)) else Some m)"

definition pad5 :: "string list \<Rightarrow> string list" where
  "pad5 row = row @ replicate (5 - length row) []"

text \<open>The body of the loop over the records, for one record.\<close>

definition processRow :: "string list \<Rightarrow> snapshot \<Rightarrow> snapshot option" where
  "processRow row0 sn =
     (if row0 = [] then Some sn
      else let row = pad5 row0;
               decField = TrimSpace (row ! 0);
               keyword = TrimSpace (row ! 1);
               proto = TrimSpace (row ! 2);
               ipv6ext = TrimSpace (row ! 3);
               ref = TrimSpace (row ! 4)
           in if decField = [] then Some sn
              else case parseDecimalField decField of
                     Inl err \<Rightarrow> Some sn
                   | Inr (start, endN) \<Rightarrow>
                       (let e = \<lparr>DecimalStart = start, DecimalEnd = endN, Keyword = keyword,
                                 Protocol = proto, IPv6ExtHdr = ipv6ext, Reference = ref\<rparr>
                        in do {
                          bn \<leftarrow> fillByNumber start endN e (sByNumber sn);
                          let k = ToUpper keyword;
                          let bk = (if keyword \<noteq> [] \<and> sByKeyword sn k = None
                                    then (sByKeyword sn)(k \<mapsto> e) else sByKeyword sn);
                          let p = normalizeProtoName proto;
                          let bp = (if proto \<noteq> [] \<and> sByProtocolName sn p = None
                                    then (sByProtocolName sn)(p \<mapsto> e) else sByProtocolName sn);
                          Some \<lparr>sEntries = sEntries sn @ [e], sByNumber = bn, sByKeyword = bk,
                                sByProtocolName = bp\<rparr>
                        }))"

fun loadRows :: "string list list \<Rightarrow> snapshot \<Rightarrow> snapshot option" where
  "loadRows [] sn = Some sn"
| "loadRows (row # rows) sn = (case processRow row sn of None \<Rightarrow> None | Some sn' \<Rightarrow> loadRows rows sn')"

section \<open>The registry\<close>

text \<open>
  The package-level variables. A Go map variable may be \<^verbatim>\<open>nil\<close>, which is \<open>None\<close> here;
  \<open>loadOnce\<close> holds whether the \<^verbatim>\<open>sync.Once\<close> has run. The mutex is not modelled: the
  operations run one after the other.
\<close>

datatype loadError =
    EmbeddedEmpty
  | OpenFailed
  | ReadFailed
  | CsvEmpty

record registry =
  entries :: "Entry list"
  byNumber :: "(int \<rightharpoonup> Entry) option"
  byKeyword :: "(string \<rightharpoonup> Entry) option"
  byProtocolName :: "(string \<rightharpoonup> Entry) option"
  loadOnce :: bool
  loadErr :: "loadError option"

definition initialRegistry :: registry where
  "initialRegistry = \<lparr>entries = [], byNumber = None, byKeyword = None, byProtocolName = None,
                       loadOnce = False, loadErr = None\<rparr>"

text \<open>
  The package \<^verbatim>\<open>encoding/csv\<close> is not part of the repository. A reader is given by what
  \<^verbatim>\<open>cr.ReadAll()\<close> returns on it: \<open>None\<close> when it returns an error, else the records.
  The embedded file \<^verbatim>\<open>protocol-numbers.csv\<close> is a parameter: its bytes, and what the CSV
  reader makes of them.
\<close>

type_synonym reader = "string list list option"

record embedded =
  embeddedCSV :: string
  embeddedRead :: reader

text \<open>
  \<^verbatim>\<open>loadFromReaderLocked\<close>. The result is \<open>None\<close> when the call does not return, else the
  returned error (\<open>None\<close> for \<^verbatim>\<open>nil\<close>) and the registry.
\<close>

definition loadFromReaderLocked :: "reader \<Rightarrow> registry \<Rightarrow> (loadError option \<times> registry) option" where
  "loadFromReaderLocked r st =
     (case r of
        None \<Rightarrow> Some (Some ReadFailed, st)
      | Some records \<Rightarrow>
          if length records = 0 then Some (Some CsvEmpty, st)
          else do {
            sn \<leftarrow> loadRows (drop 1 records) emptySnapshot;
            Some (None, st\<lparr>entries := sEntries sn, byNumber := Some (sByNumber sn),
                             byKeyword := Some (sByKeyword sn),
                             byProtocolName := Some (sByProtocolName sn)\<rparr>)
          })"

definition loadFromReader :: "reader \<Rightarrow> registry \<Rightarrow> (loadError option \<times> registry) option" where
  "loadFromReader r st = loadFromReaderLocked r st"

definition LoadFromReader :: "reader \<Rightarrow> registry \<Rightarrow> (loadError option \<times> registry) option" where
  "LoadFromReader r st = loadFromReaderLocked r (st\<lparr>loadOnce := False, loadErr := None\<rparr>)"

text \<open>\<^verbatim>\<open>LoadFromFile\<close>; the argument is what \<^verbatim>\<open>os.Open\<close> gives, \<open>None\<close> when it fails.\<close>

definition LoadFromFile :: "reader option \<Rightarrow> registry \<Rightarrow> (loadError option \<times> registry) option" where
  "LoadFromFile f st =
     (case f of None \<Rightarrow> Some (Some OpenFailed, st) | Some r \<Rightarrow> LoadFromReader r st)"

definition ensureLoaded :: "embedded \<Rightarrow> registry \<Rightarrow> (loadError option \<times> registry) option" where
  "ensureLoaded emb st =
     (if loadOnce st then Some (loadErr st, st)
      else if length (embeddedCSV emb) = 0
        then Some (Some EmbeddedEmpty, st\<lparr>loadOnce := True, loadErr := Some EmbeddedEmpty\<rparr>)
      else do {
        (err, st') \<leftarrow> loadFromReader (embeddedRead emb) st;
        Some (err, st'\<lparr>loadOnce := True, loadErr := err\<rparr>)
      })"

text \<open>Reading a Go map that may be \<^verbatim>\<open>nil\<close>.\<close>

definition lookupMap :: "('k \<rightharpoonup> 'v) option \<Rightarrow> 'k \<Rightarrow> 'v option" where
  "lookupMap m k = (case m of None \<Rightarrow> None | Some f \<Rightarrow> f k)"

text \<open>
  The queries. \<^verbatim>\<open>LookupByNumber\<close> returns \<open>Some e\<close> for \<^verbatim>\<open>(e, true)\<close> and \<open>None\<close>
  for \<^verbatim>\<open>(nil, false)\<close>; the others return the pair of the Go function.
\<close>

definition LookupByNumber :: "embedded \<Rightarrow> registry \<Rightarrow> int \<Rightarrow> (Entry option \<times> registry) option" where
  "LookupByNumber emb st n =
     do {
       (err, st') \<leftarrow> ensureLoaded emb st;
       Some (if err \<noteq> None then None
             else if byNumber st' = None then None
             else lookupMap (byNumber st') n, st')
     }"

definition LookupDecimal :: "embedded \<Rightarrow> registry \<Rightarrow> string \<Rightarrow> ((int \<times> bool) \<times> registry) option" where
  "LookupDecimal emb st name0 =
     do {
       (err, st') \<leftarrow> ensureLoaded emb st;
       Some (if err \<noteq> None then (0, False)
             else if byKeyword st' = None \<and> byProtocolName st' = None then (0, False)
             else let name = TrimSpace name0
                  in if name = [] then (0, False)
                     else case lookupMap (byKeyword st') (ToUpper name) of
                            Some e \<Rightarrow> (DecimalStart e, True)
                          | None \<Rightarrow>
                              (case lookupMap (byProtocolName st') (normalizeProtoName name) of
                                 Some e \<Rightarrow> (DecimalStart e, True)
                               | None \<Rightarrow> (0, False)), st')
     }"

definition LookupKeyword :: "embedded \<Rightarrow> registry \<Rightarrow> int \<Rightarrow> ((string \<times> bool) \<times> registry) option" where
  "LookupKeyword emb st n =
     do {
       (r, st') \<leftarrow> LookupByNumber emb st n;
       Some (case r of
               None \<Rightarrow> ([], False)
             | Some e \<Rightarrow> if Keyword e = [] then ([], False) else (Keyword e, True), st')
     }"

definition LookupProtocolName :: "embedded \<Rightarrow> registry \<Rightarrow> int \<Rightarrow> ((string \<times> bool) \<times> registry) option" where
  "LookupProtocolName emb st n =
     do {
       (r, st') \<leftarrow> LookupByNumber emb st n;
       Some (case r of
               None \<Rightarrow> ([], False)
             | Some e \<Rightarrow> if Protocol e = [] then ([], False) else (Protocol e, True), st')
     }"

section \<open>Sequences of calls\<close>

text \<open>
  A client of the package calls its exported functions one after the other. \<open>perform\<close> runs one call
  on the registry, \<open>run\<close> a list of calls, and \<open>answers\<close> gives what a process that has just
  started returns to a list of calls.
\<close>

datatype call =
    LoadFromReaderCall reader
  | LoadFromFileCall "reader option"
  | LookupByNumberCall int
  | LookupDecimalCall string
  | LookupKeywordCall int
  | LookupProtocolNameCall int

datatype answer =
    Returned "loadError option"
  | EntryAnswer "Entry option"
  | DecimalAnswer "int \<times> bool"
  | NameAnswer "string \<times> bool"

fun perform :: "embedded \<Rightarrow> call \<Rightarrow> registry \<Rightarrow> (answer \<times> registry) option" where
  "perform emb (LoadFromReaderCall r) st =
     map_option (\<lambda>(err, st'). (Returned err, st')) (LoadFromReader r st)"
| "perform emb (LoadFromFileCall f) st =
     map_option (\<lambda>(err, st'). (Returned err, st')) (LoadFromFile f st)"
| "perform emb (LookupByNumberCall n) st =
     map_option (\<lambda>(r, st'). (EntryAnswer r, st')) (LookupByNumber emb st n)"
| "perform emb (LookupDecimalCall name) st =
     map_option (\<lambda>(r, st'). (DecimalAnswer r, st')) (LookupDecimal emb st name)"
| "perform emb (LookupKeywordCall n) st =
     map_option (\<lambda>(r, st'). (NameAnswer r, st')) (LookupKeyword emb st n)"
| "perform emb (LookupProtocolNameCall n) st =
     map_option (\<lambda>(r, st'). (NameAnswer r, st')) (LookupProtocolName emb st n)"

fun run :: "embedded \<Rightarrow> call list \<Rightarrow> registry \<Rightarrow> (answer list \<times> registry) option" where
  "run emb [] st = Some ([], st)"
| "run emb (c # cs) st =
     (case perform emb c st of
        None \<Rightarrow> None
      | Some (a, st') \<Rightarrow>
          (case run emb cs st' of None \<Rightarrow> None | Some (as, st'') \<Rightarrow> Some (a # as, st'')))"

definition answers :: "embedded \<Rightarrow> call list \<Rightarrow> answer list option" where
  "answers emb cs = map_option fst (run emb cs initialRegistry)"

text \<open>The registries that a process can be in: \<open>initialRegistry\<close>, and what calls make of it.\<close>

inductive reachable :: "embedded \<Rightarrow> registry \<Rightarrow> bool" for emb :: embedded where
  initial: "reachable emb initialRegistry"
| step: "reachable emb st \<Longrightarrow> perform emb c st = Some (a, st') \<Longrightarrow> reachable emb st'"

section \<open>Vocabulary of the properties\<close>

text \<open>
  \<open>inRange e n\<close>: the number \<open>n\<close> lies in the range of the entry. \<open>lastOwner es n\<close> is the
  last entry of the list, in file order, whose range contains \<open>n\<close>.
\<close>

definition inRange :: "Entry \<Rightarrow> int \<Rightarrow> bool" where
  "inRange e n = (DecimalStart e \<le> n \<and> n \<le> DecimalEnd e)"

definition lastOwner :: "Entry list \<Rightarrow> int \<Rightarrow> Entry option" where
  "lastOwner es n = find (\<lambda>e. inRange e n) (rev es)"

text \<open>
  \<open>rowEntry\<close> is the entry that a record yields, \<open>None\<close> for a record that is skipped;
  \<open>addEntry\<close> is what the loop body does to the snapshot with that entry. \<open>rowFinite\<close> holds
  when the range of the record does not end at the largest \<^verbatim>\<open>int\<close>, so that the loop over
  its numbers ends.
\<close>

definition rowEntry :: "string list \<Rightarrow> Entry option" where
  "rowEntry row =
     (case parseDecimalField (TrimSpace (pad5 row ! 0)) of
        Inl err \<Rightarrow> None
      | Inr (start, endN) \<Rightarrow>
          Some \<lparr>DecimalStart = start, DecimalEnd = endN, Keyword = TrimSpace (pad5 row ! 1),
                Protocol = TrimSpace (pad5 row ! 2), IPv6ExtHdr = TrimSpace (pad5 row ! 3),
                Reference = TrimSpace (pad5 row ! 4)\<rparr>)"

definition rowFinite :: "string list \<Rightarrow> bool" where
  "rowFinite row = (case rowEntry row of None \<Rightarrow> True | Some e \<Rightarrow> DecimalEnd e < maxInt)"

definition addEntry :: "Entry \<Rightarrow> snapshot \<Rightarrow> snapshot" where
  "addEntry e sn =
     \<lparr>sEntries = sEntries sn @ [e],
      sByNumber = (\<lambda>k. if inRange e k then Some e else sByNumber sn k),
      sByKeyword = (if Keyword e \<noteq> [] \<and> sByKeyword sn (ToUpper (Keyword e)) = None
                    then (sByKeyword sn)(ToUpper (Keyword e) \<mapsto> e) else sByKeyword sn),
      sByProtocolName = (if Protocol e \<noteq> [] \<and> sByProtocolName sn (normalizeProtoName (Protocol e)) = None
                    then (sByProtocolName sn)(normalizeProtoName (Protocol e) \<mapsto> e)
                    else sByProtocolName sn)\<rparr>"

text \<open>
  The invariants of the parse and of the registry: the by-number index gives the last owner, and
  the empty string is no key of the two name indexes.
\<close>

definition snapOK :: "snapshot \<Rightarrow> bool" where
  "snapOK sn = ((\<forall>n. sByNumber sn n = lastOwner (sEntries sn) n)
                \<and> sByKeyword sn [] = None \<and> sByProtocolName sn [] = None)"

definition regOK :: "registry \<Rightarrow> bool" where
  "regOK st = ((\<forall>n. lookupMap (byNumber st) n = lastOwner (entries st) n)
               \<and> lookupMap (byKeyword st) [] = None \<and> lookupMap (byProtocolName st) [] = None)"



definition initReturns :: "embedded \<Rightarrow> registry \<Rightarrow> bool" where
  "initReturns emb st =
     (loadOnce st \<or> length (embeddedCSV emb) = 0
      \<or> (case embeddedRead emb of None \<Rightarrow> True | Some records \<Rightarrow> list_all rowFinite (drop 1 records)))"

section \<open>Example registries\<close>

definition header :: "string list" where
  "header = [''Decimal'', ''Keyword'', ''Protocol'', ''IPv6 Extension Header'', ''Reference'']"

definition tcpRow :: "string list" where
  "tcpRow = [''6'', ''TCP'', ''Transmission Control'', '''', ''[RFC9293]'']"

definition tcpOnly :: embedded where
  "tcpOnly =
     \<lparr>embeddedCSV = ''Decimal,Keyword,Protocol,IPv6 Extension Header,Reference\<newline>6,TCP,Transmission Control,,[RFC9293]\<newline>'',
      embeddedRead = Some [header, tcpRow]\<rparr>"

definition udpOnly :: reader where
  "udpOnly = Some [header, [''17'', ''UDP'', ''User Datagram'', '''', ''[RFC768]'']]"

text \<open>Two records with overlapping ranges.\<close>

definition rowA :: "string list" where
  "rowA = [''1-5'', ''A'', ''first'']"

definition rowB :: "string list" where
  "rowB = [''3-8'', ''B'', ''second'']"

definition entryA :: Entry where
  "entryA = \<lparr>DecimalStart = 1, DecimalEnd = 5, Keyword = ''A'', Protocol = ''first'',
              IPv6ExtHdr = [], Reference = []\<rparr>"

definition entryB :: Entry where
  "entryB = \<lparr>DecimalStart = 3, DecimalEnd = 8, Keyword = ''B'', Protocol = ''second'',
              IPv6ExtHdr = [], Reference = []\<rparr>"

definition overlapping :: embedded where
  "overlapping =
     \<lparr>embeddedCSV = ''Decimal,Keyword,Protocol,IPv6 Extension Header,Reference\<newline>1-5,A,first\<newline>3-8,B,second\<newline>'',
      embeddedRead = Some [header, rowA, rowB]\<rparr>"

text \<open>A keyword with a space in it, and a long name that differs from it by white space and case.\<close>

definition spaced :: embedded where
  "spaced =
     \<lparr>embeddedCSV = ''Decimal,Keyword,Protocol,IPv6 Extension Header,Reference\<newline>1,A B,foo\<newline>2,X,a  b\<newline>'',
      embeddedRead = Some [header, [''1'', ''A B'', ''foo''], [''2'', ''X'', ''a  b'']]\<rparr>"

section \<open>Lemmas\<close>

subsection \<open>The loop over the numbers of a range\<close>

lemma wrapInt_id: "minInt \<le> x \<Longrightarrow> x \<le> maxInt \<Longrightarrow> wrapInt x = x"
  by (simp add: wrapInt_def minInt_def maxInt_def)

lemma wrapInt_bounds: "minInt \<le> wrapInt x \<and> wrapInt x \<le> maxInt"
proof -
  have "0 \<le> (x + 2 ^ 63) mod (2 ^ 64 :: int)" "(x + 2 ^ 63) mod (2 ^ 64 :: int) < 2 ^ 64"
    by simp_all
  moreover have "(2 :: int) ^ 64 = 2 * 2 ^ 63" by simp
  ultimately show ?thesis
    unfolding wrapInt_def minInt_def maxInt_def by linarith
qed

lemma fillByNumber_returns:
  "minInt \<le> n \<Longrightarrow> n \<le> endN + 1 \<Longrightarrow> endN < maxInt \<Longrightarrow>
   fillByNumber n endN e m = Some (\<lambda>k. if n \<le> k \<and> k \<le> endN then Some e else m k)"
proof (induction "nat (endN + 1 - n)" arbitrary: n m)
  case 0
  then have "\<not> n \<le> endN" by simp
  then show ?case by (subst fillByNumber.simps) (auto simp: fun_eq_iff)
next
  case (Suc d)
  then have le: "n \<le> endN" by simp
  have w: "wrapInt (n + 1) = n + 1"
    using Suc.prems le by (intro wrapInt_id) (simp_all add: minInt_def maxInt_def)
  have "fillByNumber (n + 1) endN e (m(n \<mapsto> e))
        = Some (\<lambda>k. if n + 1 \<le> k \<and> k \<le> endN then Some e else (m(n \<mapsto> e)) k)"
    using Suc.hyps(2) Suc.prems le by (intro Suc.hyps(1)) simp_all
  then show ?case
    using le w by (subst fillByNumber.simps) (auto simp: fun_eq_iff)
qed

lemma fillByNumber_no_result:
  assumes "fillByNumber n endN e m = Some y"
  shows "\<not> (endN = maxInt \<and> n \<le> maxInt)"
proof (rule fillByNumber.raw_induct
    [where P = "\<lambda>n endN e m y. \<not> (endN = maxInt \<and> n \<le> maxInt)", OF _ assms], goal_cases)
  case (1 f n endN e m y)
  show ?case
  proof
    assume a: "endN = maxInt \<and> n \<le> maxInt"
    with 1(2) have "f (wrapInt (n + 1)) endN e (m(n \<mapsto> e)) = Some y" by simp
    from 1(1)[OF this] a wrapInt_bounds[of "n + 1"] show False by simp
  qed
qed

lemma fillByNumber_diverges: "n \<le> maxInt \<Longrightarrow> fillByNumber n maxInt e m = None"
  using fillByNumber_no_result[of n maxInt e m] by (cases "fillByNumber n maxInt e m") auto

subsection \<open>Strings\<close>

lemma dropWhile_Nil_iff: "dropWhile P xs = [] \<longleftrightarrow> (\<forall>x\<in>set xs. P x)"
  by (induction xs) auto

lemma TrimSpace_Nil_iff: "TrimSpace s = [] \<longleftrightarrow> (\<forall>c\<in>set s. isSpace c)"
proof
  assume "TrimSpace s = []"
  then have "dropWhile isSpace (rev (dropWhile isSpace s)) = []"
    by (simp add: TrimSpace_def)
  then have "\<forall>c\<in>set (dropWhile isSpace s). isSpace c"
    by (simp add: dropWhile_Nil_iff)
  then have "dropWhile isSpace s = []"
    using hd_dropWhile[of isSpace s] hd_in_set[of "dropWhile isSpace s"] by blast
  then show "\<forall>c\<in>set s. isSpace c" by (simp add: dropWhile_Nil_iff)
next
  assume "\<forall>c\<in>set s. isSpace c"
  then have "dropWhile isSpace s = []" by (simp only: dropWhile_Nil_iff)
  then show "TrimSpace s = []" by (simp only: TrimSpace_def rev.simps dropWhile.simps)
qed

lemma dropWhile_last: "dropWhile P xs \<noteq> [] \<Longrightarrow> last (dropWhile P xs) = last xs"
  by (induction xs) (auto split: if_splits)

lemma dropWhile_fix: "xs = [] \<or> \<not> P (hd xs) \<Longrightarrow> dropWhile P xs = xs"
  by (cases xs) auto

lemma TrimSpace_ends:
  assumes "TrimSpace s \<noteq> []"
  shows "\<not> isSpace (hd (TrimSpace s))" and "\<not> isSpace (last (TrimSpace s))"
proof -
  let ?d = "dropWhile isSpace s"
  let ?r = "dropWhile isSpace (rev ?d)"
  have r: "?r \<noteq> []" using assms by (simp add: TrimSpace_def)
  have d: "?d \<noteq> []"
  proof
    assume "?d = []"
    then have "?r = []" by (simp only: rev.simps dropWhile.simps)
    with r show False by contradiction
  qed
  have "last ?r = last (rev ?d)" using r by (rule dropWhile_last)
  also have "\<dots> = hd ?d" using d by (simp add: last_rev)
  finally have "hd (rev ?r) = hd ?d" using r by (simp add: hd_rev)
  then show "\<not> isSpace (hd (TrimSpace s))"
    using hd_dropWhile[OF d] by (simp add: TrimSpace_def)
  have "last (rev ?r) = hd ?r" using r by (simp add: last_rev)
  then show "\<not> isSpace (last (TrimSpace s))"
    using hd_dropWhile[OF r] by (simp add: TrimSpace_def)
qed

lemma TrimSpace_fix:
  assumes "s = [] \<or> (\<not> isSpace (hd s) \<and> \<not> isSpace (last s))"
  shows "TrimSpace s = s"
proof (cases "s = []")
  case True
  then show ?thesis by (simp add: TrimSpace_def)
next
  case False
  with assms have h: "\<not> isSpace (hd s)" and l: "\<not> isSpace (last s)" by auto
  have 1: "dropWhile isSpace s = s" using h by (intro dropWhile_fix) simp
  have 2: "dropWhile isSpace (rev s) = rev s"
    using l False by (intro dropWhile_fix) (simp add: hd_rev)
  show ?thesis by (simp add: TrimSpace_def 1 2)
qed

lemma TrimSpace_idem: "TrimSpace (TrimSpace s) = TrimSpace s"
  using TrimSpace_ends[of s] by (intro TrimSpace_fix) blast

lemma TrimSpace_keeps_hd:
  assumes "s \<noteq> []" "\<not> isSpace (hd s)"
  shows "TrimSpace s \<noteq> [] \<and> hd (TrimSpace s) = hd s"
proof -
  have 1: "dropWhile isSpace s = s" using assms by (intro dropWhile_fix) simp
  have "hd s \<in> set (rev s)" using assms by simp
  then have r: "dropWhile isSpace (rev s) \<noteq> []"
    using assms(2) by (auto simp: dropWhile_Nil_iff)
  then have "last (dropWhile isSpace (rev s)) = last (rev s)" by (rule dropWhile_last)
  then have "hd (rev (dropWhile isSpace (rev s))) = hd s"
    using r assms(1) by (simp add: hd_rev last_rev)
  then show ?thesis using r by (simp add: TrimSpace_def 1)
qed

lemma isSpace_upperByte [simp]: "isSpace (upperByte c) = isSpace c"
  by (auto simp: upperByte_def isSpace_def lowerLetters_def upperLetters_def split: option.splits if_splits)

lemma isSpace_lowerByte [simp]: "isSpace (lowerByte c) = isSpace c"
  by (auto simp: lowerByte_def isSpace_def lowerLetters_def upperLetters_def split: option.splits if_splits)

lemma lowerByte_upperByte [simp]: "lowerByte (upperByte c) = lowerByte c"
  by (auto simp: lowerByte_def upperByte_def lowerLetters_def upperLetters_def split: option.splits if_splits)

lemma fieldsFrom_Nil_iff: "fieldsFrom cur s = [] \<longleftrightarrow> cur = [] \<and> (\<forall>c\<in>set s. isSpace c)"
  by (induction cur s rule: fieldsFrom.induct) auto

lemma fieldsFrom_nonempty: "f \<in> set (fieldsFrom cur s) \<Longrightarrow> f \<noteq> []"
  by (induction cur s rule: fieldsFrom.induct) (auto split: if_splits)

lemma Join_Nil_iff: "\<forall>x\<in>set xs. x \<noteq> [] \<Longrightarrow> Join xs sep = [] \<longleftrightarrow> xs = []"
  by (induction xs sep rule: Join.induct) auto

lemma normalizeProtoName_Nil_iff: "normalizeProtoName s = [] \<longleftrightarrow> TrimSpace s = []"
proof -
  have "normalizeProtoName s = [] \<longleftrightarrow> Fields (ToLower (TrimSpace s)) = []"
    unfolding normalizeProtoName_def Fields_def
    by (intro Join_Nil_iff) (auto dest: fieldsFrom_nonempty)
  also have "\<dots> \<longleftrightarrow> (\<forall>c\<in>set (TrimSpace s). isSpace c)"
    by (simp add: Fields_def fieldsFrom_Nil_iff ToLower_def)
  also have "\<dots> \<longleftrightarrow> TrimSpace (TrimSpace s) = []"
    by (simp add: TrimSpace_Nil_iff)
  finally show ?thesis by (simp add: TrimSpace_idem)
qed




subsection \<open>The decimal field and one record\<close>

lemma isDigit_not_space: "isDigit c \<Longrightarrow> \<not> isSpace c"
  by (auto simp: isDigit_def isSpace_def)

lemma isDigit_not_sign: "isDigit c \<Longrightarrow> c \<noteq> CHR ''-'' \<and> c \<noteq> CHR ''+''"
  by (auto simp: isDigit_def)

lemma isDigit_value: "isDigit c \<Longrightarrow> 0 \<le> int (of_char c) - 48"
  by (auto simp: isDigit_def)

lemma digitsValue_nonneg: "list_all isDigit ds \<Longrightarrow> 0 \<le> n \<Longrightarrow> 0 \<le> digitsValue n ds"
proof (induction ds arbitrary: n)
  case Nil
  then show ?case by simp
next
  case (Cons c ds)
  then have "0 \<le> n * 10 + (int (of_char c) - 48)"
    using isDigit_value[of c] by simp
  with Cons show ?case by simp
qed

lemma Atoi_bounds: "Atoi s = Some v \<Longrightarrow> minInt \<le> v \<and> v \<le> maxInt"
  by (auto simp: Atoi_def Let_def split: if_splits)

lemma Atoi_digit_nonneg:
  assumes "Atoi s = Some v" "s \<noteq> []" "isDigit (hd s)"
  shows "0 \<le> v"
proof -
  from assms(2,3) have ns: "hd s \<noteq> CHR ''-''" "hd s \<noteq> CHR ''+''"
    using isDigit_not_sign by auto
  with assms(1) have "list_all isDigit s" "v = digitsValue 0 s"
    by (auto simp: Atoi_def Let_def split: if_splits)
  then show ?thesis using digitsValue_nonneg[of s 0] by simp
qed

lemma parseDecimalField_Inr:
  assumes "parseDecimalField s0 = Inr (a, b)"
  shows "0 \<le> a \<and> a \<le> b \<and> b \<le> maxInt"
proof -
  let ?s = "TrimSpace s0"
  from assms have ne: "?s \<noteq> []" and dg: "isDigit (hd ?s)"
    by (auto simp: parseDecimalField_def Let_def split: if_splits)
  show ?thesis
  proof (cases "CHR ''-'' \<in> set ?s")
    case True
    let ?a = "takeWhile (\<lambda>c. c \<noteq> CHR ''-'') ?s"
    from True ne dg assms
    have A: "Atoi (TrimSpace ?a) = Some a"
      and B: "Atoi (TrimSpace (tl (dropWhile (\<lambda>c. c \<noteq> CHR ''-'') ?s))) = Some b"
      and le: "a \<le> b"
      by (auto simp: parseDecimalField_def Let_def split: if_splits option.splits)
    have "?a \<noteq> [] \<and> hd ?a = hd ?s"
      using ne dg isDigit_not_sign[of "hd ?s"] by (cases ?s) auto
    then have "TrimSpace ?a \<noteq> [] \<and> hd (TrimSpace ?a) = hd ?s"
      using TrimSpace_keeps_hd[of ?a] isDigit_not_space[OF dg] by simp
    then have "0 \<le> a" using Atoi_digit_nonneg[OF A] dg by simp
    then show ?thesis using le Atoi_bounds[OF B] by simp
  next
    case False
    with ne dg assms have A: "Atoi ?s = Some a" and eq: "b = a"
      by (auto simp: parseDecimalField_def Let_def split: if_splits option.splits)
    show ?thesis using Atoi_digit_nonneg[OF A ne dg] Atoi_bounds[OF A] eq by simp
  qed
qed

lemma parseDecimalField_Nil: "parseDecimalField [] = Inl EmptyDecimal"
  by (simp add: parseDecimalField_def TrimSpace_def)

lemma parseDecimalField_TrimSpace: "parseDecimalField (TrimSpace s) = parseDecimalField s"
  by (simp add: parseDecimalField_def TrimSpace_idem)

lemma rowEntry_Nil: "rowEntry [] = None"
  by (simp add: rowEntry_def pad5_def parseDecimalField_def TrimSpace_def)


lemma processRow_eq:
  "processRow row sn =
     (case rowEntry row of
        None \<Rightarrow> Some sn
      | Some e \<Rightarrow> if DecimalEnd e < maxInt then Some (addEntry e sn) else None)"
proof (cases "row = []")
  case True
  then show ?thesis by (simp add: processRow_def rowEntry_Nil)
next
  case False
  show ?thesis
  proof (cases "parseDecimalField (TrimSpace (pad5 row ! 0))")
    case (Inl err)
    then show ?thesis using False
      by (simp add: processRow_def rowEntry_def Let_def)
  next
    case (Inr p)
    obtain a b where p: "p = (a, b)" by (cases p)
    from Inr p have ne: "TrimSpace (pad5 row ! 0) \<noteq> []"
      using parseDecimalField_Nil by auto
    from Inr p parseDecimalField_Inr[of "TrimSpace (pad5 row ! 0)" a b]
    have rg: "0 \<le> a" "a \<le> b" "b \<le> maxInt" by auto
    show ?thesis
    proof (cases "b < maxInt")
      case True
      have "minInt \<le> a" using rg by (simp add: minInt_def)
      then show ?thesis
        using False Inr p ne True rg
        by (simp add: processRow_def rowEntry_def Let_def fillByNumber_returns addEntry_def inRange_def)
    next
      case False2: False
      with rg have "b = maxInt" by simp
      then show ?thesis
        using False Inr p ne rg
        by (simp add: processRow_def rowEntry_def Let_def fillByNumber_diverges)
    qed
  qed
qed

subsection \<open>The invariants\<close>

lemma lastOwner_snoc: "lastOwner (es @ [e]) n = (if inRange e n then Some e else lastOwner es n)"
  by (simp add: lastOwner_def)

lemma rowEntry_trimmed: "rowEntry row = Some e \<Longrightarrow> TrimSpace (Protocol e) = Protocol e"
  by (auto simp: rowEntry_def TrimSpace_idem split: sum.splits)

lemma addEntry_snapOK:
  assumes "snapOK sn" "TrimSpace (Protocol e) = Protocol e"
  shows "snapOK (addEntry e sn)"
proof -
  have k: "(ToUpper (Keyword e) = []) = (Keyword e = [])" "([] = ToUpper (Keyword e)) = (Keyword e = [])"
    by (auto simp: ToUpper_def)
  have "(normalizeProtoName (Protocol e) = []) = (Protocol e = [])"
    using assms(2) by (simp add: normalizeProtoName_Nil_iff)
  then have p: "(normalizeProtoName (Protocol e) = []) = (Protocol e = [])"
    "([] = normalizeProtoName (Protocol e)) = (Protocol e = [])"
    by auto
  show ?thesis
    using assms(1) by (auto simp: snapOK_def addEntry_def lastOwner_snoc k p)
qed

lemma processRow_snapOK: "snapOK sn \<Longrightarrow> processRow row sn = Some sn' \<Longrightarrow> snapOK sn'"
  by (auto simp: processRow_eq split: option.splits if_splits
      intro: addEntry_snapOK dest: rowEntry_trimmed)

lemma loadRows_snapOK: "snapOK sn \<Longrightarrow> loadRows rows sn = Some sn' \<Longrightarrow> snapOK sn'"
proof (induction rows arbitrary: sn)
  case Nil
  then show ?case by simp
next
  case (Cons row rows)
  then show ?case
    by (auto split: option.splits dest: processRow_snapOK)
qed

lemma processRow_entries:
  "processRow row sn = Some sn' \<Longrightarrow> sEntries sn' = sEntries sn @ List.map_filter rowEntry [row]"
  by (auto simp: processRow_eq addEntry_def split: option.splits if_splits)

lemma loadRows_entries:
  "loadRows rows sn = Some sn' \<Longrightarrow> sEntries sn' = sEntries sn @ List.map_filter rowEntry rows"
proof (induction rows arbitrary: sn)
  case Nil
  then show ?case by (simp add: List.map_filter_simps)
next
  case (Cons row rows)
  from Cons.prems obtain sn1 where 1: "processRow row sn = Some sn1"
    and 2: "loadRows rows sn1 = Some sn'"
    by (auto split: option.splits)
  show ?case
    using Cons.IH[OF 2] processRow_entries[OF 1]
    by (simp add: List.map_filter_simps split: option.splits)
qed

lemma processRow_returns_iff: "processRow row sn \<noteq> None \<longleftrightarrow> rowFinite row"
  by (auto simp: processRow_eq rowFinite_def split: option.splits)

lemma loadRows_returns_iff: "loadRows rows sn \<noteq> None \<longleftrightarrow> list_all rowFinite rows"
proof (induction rows arbitrary: sn)
  case Nil
  then show ?case by simp
next
  case (Cons row rows)
  show ?case
  proof (cases "processRow row sn")
    case None
    then show ?thesis using processRow_returns_iff[of row sn] by simp
  next
    case (Some sn1)
    then show ?thesis using processRow_returns_iff[of row sn] Cons.IH[of sn1] by simp
  qed
qed

lemma snapOK_empty: "snapOK emptySnapshot"
  by (simp add: snapOK_def emptySnapshot_def lastOwner_def)

lemma regOK_initial: "regOK initialRegistry"
  by (simp add: regOK_def initialRegistry_def lookupMap_def lastOwner_def)

lemma regOK_flags [simp]: "regOK (st\<lparr>loadOnce := b, loadErr := x\<rparr>) = regOK st"
  by (simp add: regOK_def)

lemma loadFromReaderLocked_cases:
  assumes "loadFromReaderLocked r st = Some (err, st')"
  shows "(err = Some ReadFailed \<and> r = None \<and> st' = st)
       \<or> (err = Some CsvEmpty \<and> r = Some [] \<and> st' = st)
       \<or> (\<exists>records sn. err = None \<and> r = Some records \<and> records \<noteq> []
            \<and> loadRows (drop 1 records) emptySnapshot = Some sn
            \<and> st' = st\<lparr>entries := sEntries sn, byNumber := Some (sByNumber sn),
                          byKeyword := Some (sByKeyword sn),
                          byProtocolName := Some (sByProtocolName sn)\<rparr>)"
  using assms
  by (auto simp: loadFromReaderLocked_def split: option.splits if_splits bind_splits)

lemma loadFromReaderLocked_regOK:
  assumes "regOK st" "loadFromReaderLocked r st = Some (err, st')"
  shows "regOK st'"
  using loadFromReaderLocked_cases[OF assms(2)]
proof (elim disjE exE conjE)
  fix records sn
  assume l: "loadRows (drop 1 records) emptySnapshot = Some sn"
    and s: "st' = st\<lparr>entries := sEntries sn, byNumber := Some (sByNumber sn),
                          byKeyword := Some (sByKeyword sn),
                          byProtocolName := Some (sByProtocolName sn)\<rparr>"
  from loadRows_snapOK[OF snapOK_empty l] show ?thesis
    by (simp add: s regOK_def snapOK_def lookupMap_def)
qed (use assms(1) in simp_all)

lemma ensureLoaded_cases:
  assumes "ensureLoaded emb st = Some (err, st')"
  shows "(loadOnce st \<and> err = loadErr st \<and> st' = st)
       \<or> (\<not> loadOnce st \<and> embeddedCSV emb = [] \<and> err = Some EmbeddedEmpty
            \<and> st' = st\<lparr>loadOnce := True, loadErr := Some EmbeddedEmpty\<rparr>)
       \<or> (\<exists>st1. \<not> loadOnce st \<and> embeddedCSV emb \<noteq> []
            \<and> loadFromReaderLocked (embeddedRead emb) st = Some (err, st1)
            \<and> st' = st1\<lparr>loadOnce := True, loadErr := err\<rparr>)"
  using assms
  by (auto simp: ensureLoaded_def loadFromReader_def split: if_splits bind_splits)


lemma ensureLoaded_regOK: "regOK st \<Longrightarrow> ensureLoaded emb st = Some (err, st') \<Longrightarrow> regOK st'"
  by (auto dest!: ensureLoaded_cases dest: loadFromReaderLocked_regOK)

lemma LoadFromReader_regOK: "regOK st \<Longrightarrow> LoadFromReader r st = Some (err, st') \<Longrightarrow> regOK st'"
  unfolding LoadFromReader_def
  using loadFromReaderLocked_regOK[of "st\<lparr>loadOnce := False, loadErr := None\<rparr>" r err st']
  by simp

lemma LookupByNumber_state:
  "LookupByNumber emb st n = Some (r, st') \<Longrightarrow> \<exists>err. ensureLoaded emb st = Some (err, st')"
  by (auto simp: LookupByNumber_def split: bind_splits)

lemma LookupDecimal_state:
  "LookupDecimal emb st name = Some (r, st') \<Longrightarrow> \<exists>err. ensureLoaded emb st = Some (err, st')"
  by (auto simp: LookupDecimal_def split: bind_splits)

lemma LookupKeyword_state:
  "LookupKeyword emb st n = Some (r, st') \<Longrightarrow> \<exists>err. ensureLoaded emb st = Some (err, st')"
  by (auto simp: LookupKeyword_def split: bind_splits dest: LookupByNumber_state)

lemma LookupProtocolName_state:
  "LookupProtocolName emb st n = Some (r, st') \<Longrightarrow> \<exists>err. ensureLoaded emb st = Some (err, st')"
  by (auto simp: LookupProtocolName_def split: bind_splits dest: LookupByNumber_state)

lemma perform_regOK: "regOK st \<Longrightarrow> perform emb c st = Some (a, st') \<Longrightarrow> regOK st'"
proof (cases c)
  case (LoadFromReaderCall r)
  then show "regOK st \<Longrightarrow> perform emb c st = Some (a, st') \<Longrightarrow> regOK st'"
    by (auto dest: LoadFromReader_regOK)
next
  case (LoadFromFileCall f)
  then show "regOK st \<Longrightarrow> perform emb c st = Some (a, st') \<Longrightarrow> regOK st'"
    by (auto simp: LoadFromFile_def split: option.splits dest: LoadFromReader_regOK)
next
  case (LookupByNumberCall n)
  then show "regOK st \<Longrightarrow> perform emb c st = Some (a, st') \<Longrightarrow> regOK st'"
    by (auto dest!: LookupByNumber_state dest: ensureLoaded_regOK)
next
  case (LookupDecimalCall name)
  then show "regOK st \<Longrightarrow> perform emb c st = Some (a, st') \<Longrightarrow> regOK st'"
    by (auto dest!: LookupDecimal_state dest: ensureLoaded_regOK)
next
  case (LookupKeywordCall n)
  then show "regOK st \<Longrightarrow> perform emb c st = Some (a, st') \<Longrightarrow> regOK st'"
    by (auto dest!: LookupKeyword_state dest: ensureLoaded_regOK)
next
  case (LookupProtocolNameCall n)
  then show "regOK st \<Longrightarrow> perform emb c st = Some (a, st') \<Longrightarrow> regOK st'"
    by (auto dest!: LookupProtocolName_state dest: ensureLoaded_regOK)
qed

lemma reachable_regOK: "reachable emb st \<Longrightarrow> regOK st"
  by (induction rule: reachable.induct) (auto intro: regOK_initial perform_regOK)

lemma loadFromReaderLocked_returns_iff:
  "loadFromReaderLocked r st \<noteq> None \<longleftrightarrow>
     (case r of None \<Rightarrow> True | Some records \<Rightarrow> list_all rowFinite (drop 1 records))"
proof (cases r)
  case None
  then show ?thesis by (simp add: loadFromReaderLocked_def)
next
  case (Some records)
  show ?thesis
  proof (cases "records = []")
    case True
    then show ?thesis using Some by (simp add: loadFromReaderLocked_def)
  next
    case False
    then show ?thesis
      using Some loadRows_returns_iff[of "drop 1 records" emptySnapshot]
      by (cases "loadRows (drop 1 records) emptySnapshot") (simp_all add: loadFromReaderLocked_def)
  qed
qed

lemma ensureLoaded_returns_iff: "ensureLoaded emb st \<noteq> None \<longleftrightarrow> initReturns emb st"
proof (cases "loadOnce st \<or> length (embeddedCSV emb) = 0")
  case True
  then show ?thesis by (auto simp: ensureLoaded_def initReturns_def)
next
  case False
  then have "ensureLoaded emb st \<noteq> None \<longleftrightarrow> loadFromReaderLocked (embeddedRead emb) st \<noteq> None"
    by (cases "loadFromReaderLocked (embeddedRead emb) st")
      (auto simp: ensureLoaded_def loadFromReader_def)
  then show ?thesis
    using False loadFromReaderLocked_returns_iff[of "embeddedRead emb" st]
    by (simp only: initReturns_def) blast
qed


lemma loadFromReaderLocked_parsed:
  assumes "loadFromReaderLocked (Some records) st = Some (None, st')"
  shows "entries st' = List.map_filter rowEntry (drop 1 records)
       \<and> lookupMap (byNumber st') n = lastOwner (entries st') n"
proof -
  from loadFromReaderLocked_cases[OF assms]
  obtain sn where l: "loadRows (drop 1 records) emptySnapshot = Some sn"
    and s: "st' = st\<lparr>entries := sEntries sn, byNumber := Some (sByNumber sn),
                          byKeyword := Some (sByKeyword sn),
                          byProtocolName := Some (sByProtocolName sn)\<rparr>"
    by auto
  have "sEntries sn = List.map_filter rowEntry (drop 1 records)"
    using loadRows_entries[OF l] by (simp add: emptySnapshot_def)
  moreover have "sByNumber sn n = lastOwner (sEntries sn) n"
    using loadRows_snapOK[OF snapOK_empty l] by (simp add: snapOK_def)
  ultimately show ?thesis by (simp add: s lookupMap_def)
qed




lemma LookupDecimal_blank:
  assumes "\<forall>c\<in>set name. isSpace c" and "initReturns emb st"
  shows "map_option fst (LookupDecimal emb st name) = Some (0, False)"
proof -
  obtain err st' where el: "ensureLoaded emb st = Some (err, st')"
    using ensureLoaded_returns_iff[of emb st] assms(2) by auto
  from assms(1) have "TrimSpace name = []" by (simp add: TrimSpace_Nil_iff)
  then show ?thesis
    using el by (simp add: LookupDecimal_def)
qed

lemma empty_key_not_indexed:
  "reachable emb st \<Longrightarrow> lookupMap (byKeyword st) [] = None \<and> lookupMap (byProtocolName st) [] = None"
  using reachable_regOK[of emb st] by (simp add: regOK_def)

subsection \<open>Queries after an override\<close>

text \<open>
  \<^verbatim>\<open>LoadFromReader\<close> leaves the \<^verbatim>\<open>sync.Once\<close> reset, whether the parse succeeds or
  not. A query on such a registry runs the lazy initialization, and is answered as in a process
  that has just started.
\<close>

lemma ensureLoaded_pending:
  assumes "\<not> loadOnce st"
  shows "(ensureLoaded emb st = None \<longleftrightarrow> ensureLoaded emb initialRegistry = None)
       \<and> (\<forall>err st'. ensureLoaded emb st = Some (err, st') \<longrightarrow>
            (\<exists>st0. ensureLoaded emb initialRegistry = Some (err, st0) \<and> (err = None \<longrightarrow> st0 = st')))"
  using assms
  by (auto simp: ensureLoaded_def loadFromReader_def loadFromReaderLocked_def initialRegistry_def
      split: option.splits bind_splits)

lemma LookupDecimal_pending:
  assumes "\<not> loadOnce st"
  shows "map_option fst (LookupDecimal emb st name) = map_option fst (LookupDecimal emb initialRegistry name)"
proof (cases "ensureLoaded emb st")
  case None
  then have "ensureLoaded emb initialRegistry = None"
    using ensureLoaded_pending[OF assms, of emb] by simp
  with None show ?thesis by (simp add: LookupDecimal_def)
next
  case (Some p)
  obtain err st' where p: "p = (err, st')" by (cases p)
  with Some ensureLoaded_pending[OF assms, of emb]
  obtain st0 where 0: "ensureLoaded emb initialRegistry = Some (err, st0)" "err = None \<longrightarrow> st0 = st'"
    by blast
  show ?thesis
    using Some p 0 by (cases err) (simp_all add: LookupDecimal_def)
qed

lemma LookupByNumber_pending:
  assumes "\<not> loadOnce st"
  shows "map_option fst (LookupByNumber emb st n) = map_option fst (LookupByNumber emb initialRegistry n)"
proof (cases "ensureLoaded emb st")
  case None
  then have "ensureLoaded emb initialRegistry = None"
    using ensureLoaded_pending[OF assms, of emb] by simp
  with None show ?thesis by (simp add: LookupByNumber_def)
next
  case (Some p)
  obtain err st' where p: "p = (err, st')" by (cases p)
  with Some ensureLoaded_pending[OF assms, of emb]
  obtain st0 where 0: "ensureLoaded emb initialRegistry = Some (err, st0)" "err = None \<longrightarrow> st0 = st'"
    by blast
  show ?thesis
    using Some p 0 by (cases err) (simp_all add: LookupByNumber_def)
qed

lemma LoadFromReader_pending: "LoadFromReader r st = Some (err, st1) \<Longrightarrow> \<not> loadOnce st1"
  unfolding LoadFromReader_def by (auto dest!: loadFromReaderLocked_cases)

lemma query_after_override:
  assumes "LoadFromReader r st = Some (err, st1)"
  shows "map_option fst (LookupDecimal emb st1 name) = map_option fst (LookupDecimal emb initialRegistry name)"
    and "map_option fst (LookupByNumber emb st1 n) = map_option fst (LookupByNumber emb initialRegistry n)"
  using LookupDecimal_pending[OF LoadFromReader_pending[OF assms]]
    LookupByNumber_pending[OF LoadFromReader_pending[OF assms]]
  by simp_all

subsection \<open>Evaluation\<close>

lemmas string_eval = TrimSpace_def isSpace_def isDigit_def Atoi_def minInt_def maxInt_def
  ToUpper_def ToLower_def upperByte_def lowerByte_def upperLetters_def lowerLetters_def
  normalizeProtoName_def Fields_def parseDecimalField_def pad5_def

lemmas registry_eval = processRow_eq rowEntry_def addEntry_def inRange_def emptySnapshot_def
  loadFromReaderLocked_def loadFromReader_def LoadFromReader_def LoadFromFile_def ensureLoaded_def
  lookupMap_def LookupByNumber_def LookupDecimal_def LookupKeyword_def LookupProtocolName_def
  initialRegistry_def answers_def header_def tcpRow_def tcpOnly_def udpOnly_def rowA_def rowB_def
  overlapping_def spaced_def

section \<open>The properties\<close>

subsection \<open>C1: an override and the queries after it\<close>

text \<open>
  C1 asks that after a successful \<^verbatim>\<open>LoadFromReader\<close> every query is answered from the new
  data, so that a keyword of the old data only is not found. \<^verbatim>\<open>LoadFromReader\<close> leaves the
  \<^verbatim>\<open>sync.Once\<close> reset, so the next query runs the lazy initialization again, which parses the
  embedded file over the new data. With an embedded file that holds TCP only and an override that
  holds UDP only, the override returns \<^verbatim>\<open>nil\<close>, and then TCP is found at 6 and UDP is not
  found.
\<close>

theorem LoadFromReader_override_lost:
  "answers tcpOnly [LoadFromReaderCall udpOnly, LookupDecimalCall ''TCP'', LookupDecimalCall ''UDP'']
     = Some [Returned None, DecimalAnswer (6, True), DecimalAnswer (0, False)]"
  by (simp add: string_eval registry_eval)

subsection \<open>C2: overlapping ranges in the by-number index\<close>

text \<open>
  C2, as the code has it: after a parse that returns \<^verbatim>\<open>nil\<close>, the entry list holds the entries
  of the records after the header, in file order, and every number is bound to the last entry
  whose range contains it. The loop over the range assigns without a test, so where two ranges
  overlap the later record owns the shared numbers.
\<close>

theorem byNumber_last_row_wins:
  assumes "loadFromReaderLocked (Some records) st = Some (None, st')"
  shows "entries st' = List.map_filter rowEntry (drop 1 records)
       \<and> lookupMap (byNumber st') n = lastOwner (entries st') n"
  using assms by (rule loadFromReaderLocked_parsed)

theorem byNumber_last_row_wins_witness:
  "\<exists>st'. loadFromReaderLocked (Some [header, rowA, rowB]) initialRegistry = Some (None, st')
         \<and> entries st' = [entryA, entryB] \<and> lookupMap (byNumber st') 4 = Some entryB"
proof -
  have "\<exists>st'. loadFromReaderLocked (Some [header, rowA, rowB]) initialRegistry = Some (None, st')"
    by (simp add: string_eval registry_eval)
  then obtain st' where 1: "loadFromReaderLocked (Some [header, rowA, rowB]) initialRegistry = Some (None, st')" ..
  have rows: "List.map_filter rowEntry (drop 1 [header, rowA, rowB]) = [entryA, entryB]"
    by (simp add: List.map_filter_def string_eval registry_eval entryA_def entryB_def)
  from byNumber_last_row_wins[OF 1, of 4] rows
  have "entries st' = [entryA, entryB] \<and> lookupMap (byNumber st') 4 = lastOwner [entryA, entryB] 4"
    by simp
  moreover have "lastOwner [entryA, entryB] 4 = Some entryB"
    by (simp add: lastOwner_def inRange_def entryA_def entryB_def)
  ultimately show ?thesis using 1 by auto
qed

text \<open>
  The number 3 is in the range of the earlier record \<open>rowA\<close> and of the later record \<open>rowB\<close>;
  the index binds it to the entry of the later one.
\<close>

theorem byNumber_first_row_loses:
  "rowEntry rowA = Some entryA \<and> inRange entryA 3
   \<and> (case loadFromReaderLocked (Some [header, rowA, rowB]) initialRegistry of
        None \<Rightarrow> None
      | Some res \<Rightarrow> lookupMap (byNumber (snd res)) 3) = Some entryB
   \<and> entryB \<noteq> entryA"
  by (simp add: string_eval registry_eval entryA_def entryB_def)

subsection \<open>C3: an override that fails\<close>

text \<open>
  C3, as the code has it: when the read fails or gives no record, \<^verbatim>\<open>LoadFromReader\<close> returns
  an error and leaves the entry list and the three indexes as they were; no failure is cached,
  the stored error is cleared and the \<^verbatim>\<open>sync.Once\<close> is reset. \<^verbatim>\<open>LoadFromFile\<close> on a
  file that cannot be opened returns an error and changes nothing.
\<close>

theorem failed_override_keeps_snapshot:
  "LoadFromReader None st = Some (Some ReadFailed, st\<lparr>loadOnce := False, loadErr := None\<rparr>)
   \<and> LoadFromReader (Some []) st = Some (Some CsvEmpty, st\<lparr>loadOnce := False, loadErr := None\<rparr>)
   \<and> LoadFromFile None st = Some (Some OpenFailed, st)"
  by (simp add: LoadFromReader_def LoadFromFile_def loadFromReaderLocked_def)

text \<open>
  After a failed override, of a reader that cannot be read or of an empty one, a query for
  TCP is answered with 6, not with not-found.
\<close>

theorem failed_override_query_found:
  "answers tcpOnly [LookupDecimalCall ''TCP'', LoadFromReaderCall None, LookupDecimalCall ''TCP'',
                    LoadFromReaderCall (Some []), LookupDecimalCall ''TCP'']
     = Some [DecimalAnswer (6, True), Returned (Some ReadFailed), DecimalAnswer (6, True),
             Returned (Some CsvEmpty), DecimalAnswer (6, True)]"
  by (simp add: string_eval registry_eval)

subsection \<open>C4: when the parse fails\<close>

text \<open>
  C4, as the code has it: the parse returns an error when the read fails and when the source
  gives no record at all, and in no other case. A source that gives the header and nothing else
  is parsed without error, into an empty entry list and empty indexes.
\<close>

theorem loadFromReaderLocked_failures:
  "loadFromReaderLocked None st = Some (Some ReadFailed, st)
   \<and> loadFromReaderLocked (Some []) st = Some (Some CsvEmpty, st)
   \<and> loadFromReaderLocked (Some [hdr]) st =
       Some (None, st\<lparr>entries := [], byNumber := Some Map.empty, byKeyword := Some Map.empty,
                       byProtocolName := Some Map.empty\<rparr>)
   \<and> (records \<noteq> [] \<longrightarrow> loadFromReaderLocked (Some records) st \<noteq> Some (Some err, st'))"
  by (auto simp: loadFromReaderLocked_def emptySnapshot_def split: bind_splits)

theorem loadFromReaderLocked_failures_witness:
  "[header, tcpRow] \<noteq> []
   \<and> loadFromReaderLocked None initialRegistry = Some (Some ReadFailed, initialRegistry)
   \<and> loadFromReaderLocked (Some []) initialRegistry = Some (Some CsvEmpty, initialRegistry)
   \<and> loadFromReaderLocked (Some [header, tcpRow]) initialRegistry
       \<noteq> Some (Some CsvEmpty, initialRegistry)"
  using loadFromReaderLocked_failures[of initialRegistry header "[header, tcpRow]" CsvEmpty initialRegistry]
  by simp

text \<open>The parse of a source with the header only returns \<^verbatim>\<open>nil\<close>.\<close>

theorem header_only_parses:
  "map_option fst (loadFromReaderLocked (Some [header]) initialRegistry) = Some None"
  by (simp add: loadFromReaderLocked_def emptySnapshot_def)

subsection \<open>C5: the entry of a number\<close>




subsection \<open>C6: the keyword index before the long-name index\<close>



subsection \<open>C7: case and white space in the name\<close>




subsection \<open>C8: the entries come from numeric records\<close>



subsection \<open>C9: the keyword and the long name of a number\<close>

text \<open>
  C9: when \<^verbatim>\<open>LookupByNumber(n)\<close> returns \<open>r\<close>, \<^verbatim>\<open>LookupKeyword(n)\<close> returns
  not-found exactly when there is no entry or the keyword of the entry is empty, and else the
  keyword, found; \<^verbatim>\<open>LookupProtocolName(n)\<close> does the same with the long name.
\<close>

theorem LookupKeyword_LookupProtocolName_found:
  assumes "LookupByNumber emb st n = Some (r, st')"
  shows "LookupKeyword emb st n =
           Some (if r = None \<or> Keyword (the r) = [] then ([], False) else (Keyword (the r), True), st')
       \<and> LookupProtocolName emb st n =
           Some (if r = None \<or> Protocol (the r) = [] then ([], False) else (Protocol (the r), True), st')"
  using assms by (cases r) (simp_all add: LookupKeyword_def LookupProtocolName_def)

theorem LookupKeyword_LookupProtocolName_found_witness:
  "map_option fst (LookupKeyword tcpOnly initialRegistry 6) = Some (''TCP'', True)
   \<and> map_option fst (LookupProtocolName tcpOnly initialRegistry 6) = Some (''Transmission Control'', True)
   \<and> map_option fst (LookupKeyword tcpOnly initialRegistry 7) = Some ([], False)"
proof -
  have "\<exists>r st'. LookupByNumber tcpOnly initialRegistry 6 = Some (r, st')
          \<and> r \<noteq> None \<and> Keyword (the r) = ''TCP'' \<and> Protocol (the r) = ''Transmission Control''"
    by (simp add: string_eval registry_eval)
  then obtain r st' where 1: "LookupByNumber tcpOnly initialRegistry 6 = Some (r, st')"
    and 2: "r \<noteq> None" "Keyword (the r) = ''TCP''" "Protocol (the r) = ''Transmission Control''"
    by blast
  have "\<exists>st'. LookupByNumber tcpOnly initialRegistry 7 = Some (None, st')"
    by (simp add: string_eval registry_eval)
  then obtain st'' where 3: "LookupByNumber tcpOnly initialRegistry 7 = Some (None, st'')" ..
  from LookupKeyword_LookupProtocolName_found[OF 1] 2
    LookupKeyword_LookupProtocolName_found[OF 3]
  show ?thesis by simp
qed

subsection \<open>C10: a blank name\<close>

text \<open>
  C10: when the lazy initialization returns, \<^verbatim>\<open>LookupDecimal\<close> of a name that is empty or
  has white space only returns \<open>(0, false)\<close>, in every registry; and in a registry that a
  process can reach the empty string is no key of the keyword index nor of the long-name index.
\<close>

theorem LookupDecimal_blank_name:
  "((\<forall>c\<in>set name. isSpace c) \<and> initReturns emb st
      \<longrightarrow> map_option fst (LookupDecimal emb st name) = Some (0, False))
   \<and> (reachable emb st
      \<longrightarrow> lookupMap (byKeyword st) [] = None \<and> lookupMap (byProtocolName st) [] = None)"
  using LookupDecimal_blank[of name emb st] empty_key_not_indexed[of emb st] by blast

theorem LookupDecimal_blank_name_witness:
  "map_option fst (LookupDecimal tcpOnly initialRegistry [CHR '' '', CHR 0x09]) = Some (0, False)
   \<and> map_option fst (LookupDecimal tcpOnly initialRegistry []) = Some (0, False)
   \<and> lookupMap (byKeyword initialRegistry) [] = None"
proof -
  have 1: "\<forall>c\<in>set [CHR '' '', CHR 0x09]. isSpace c"
    by (simp add: isSpace_def)
  have 2: "initReturns tcpOnly initialRegistry"
    by (simp add: initReturns_def rowFinite_def string_eval registry_eval)
  from LookupDecimal_blank_name[of "[CHR '' '', CHR 0x09]" tcpOnly initialRegistry] 1 2
  have a: "map_option fst (LookupDecimal tcpOnly initialRegistry [CHR '' '', CHR 0x09]) = Some (0, False)"
    by blast
  from LookupDecimal_blank_name[of "[]" tcpOnly initialRegistry] 2
  have b: "map_option fst (LookupDecimal tcpOnly initialRegistry []) = Some (0, False)"
    by simp
  from LookupDecimal_blank_name[of "[]" tcpOnly initialRegistry] reachable.initial[of tcpOnly]
  have c: "lookupMap (byKeyword initialRegistry) [] = None"
    by blast
  from a b c show ?thesis by blast
qed

end
